theory Spec2Isabelle
  imports Complex_Main "HOL-Library.Sublist"
begin

section \<open>JavaScript values\<close>

text \<open>
  The evaluator (\<^verbatim>\<open>scripts/evaluate-candidates.js\<close>) works on objects produced by
  \<^verbatim>\<open>JSON.parse\<close>. A field that the program only tests for truthiness, or only copies
  into its result, is kept as an untyped JSON value; \<open>JUndefined\<close> is the value of an
  absent property.
\<close>

datatype jsval =
    JUndefined
  | JNull
  | JBool bool
  | JNum rat
  | JStr string
  | JArr "jsval list"
  | JObj "(string \<times> jsval) list"

text \<open>ToBoolean: what \<^verbatim>\<open>if (v)\<close>, \<^verbatim>\<open>v || w\<close> and \<^verbatim>\<open>!!v\<close> test.\<close>

fun truthy :: "jsval \<Rightarrow> bool" where
  "truthy JUndefined = False"
| "truthy JNull = False"
| "truthy (JBool b) = b"
| "truthy (JNum n) = (n \<noteq> 0)"
| "truthy (JStr s) = (s \<noteq> [])"
| "truthy (JArr xs) = True"
| "truthy (JObj kvs) = True"

text \<open>\<^verbatim>\<open>a || b\<close>: the left operand when it is truthy, the right operand otherwise.\<close>

definition js_or :: "jsval \<Rightarrow> jsval \<Rightarrow> jsval" where
  "js_or a b = (if truthy a then a else b)"

text \<open>
  \<^verbatim>\<open>v?.k\<close> for a property name \<open>k\<close> that no prototype defines (\<^verbatim>\<open>url\<close> here):
  the own property of an object, \<^verbatim>\<open>undefined\<close> on every other value.
\<close>

fun opt_prop :: "jsval \<Rightarrow> string \<Rightarrow> jsval" where
  "opt_prop (JObj kvs) k = (case map_of kvs k of Some v \<Rightarrow> v | None \<Rightarrow> JUndefined)"
| "opt_prop v k = JUndefined"

text \<open>\<^verbatim>\<open>Object.keys\<close> of a parsed object: its property names, each once.\<close>

definition object_keys :: "(string \<times> 'a) list \<Rightarrow> string list" where
  "object_keys kvs = remdups (map fst kvs)"

section \<open>Strings\<close>

text \<open>
  Strings are ASCII text. \<^verbatim>\<open>toUpperCase\<close> and \<^verbatim>\<open>toLowerCase\<close> change the letters
  \<open>a\<close>..\<open>z\<close> and \<open>A\<close>..\<open>Z\<close> and leave every other character as it is.
\<close>

definition upper_char :: "char \<Rightarrow> char" where
  "upper_char c =
     (case map_of (zip ''abcdefghijklmnopqrstuvwxyz'' ''ABCDEFGHIJKLMNOPQRSTUVWXYZ'') c of
        Some u \<Rightarrow> u
      | None \<Rightarrow> c)"

definition lower_char :: "char \<Rightarrow> char" where
  "lower_char c =
     (case map_of (zip ''ABCDEFGHIJKLMNOPQRSTUVWXYZ'' ''abcdefghijklmnopqrstuvwxyz'') c of
        Some l \<Rightarrow> l
      | None \<Rightarrow> c)"

definition toUpperCase :: "string \<Rightarrow> string" where
  "toUpperCase s = map upper_char s"

definition toLowerCase :: "string \<Rightarrow> string" where
  "toLowerCase s = map lower_char s"

text \<open>\<^verbatim>\<open>s.includes(t)\<close>: \<open>t\<close> occurs in \<open>s\<close> as a contiguous run of characters.\<close>

definition str_includes :: "string \<Rightarrow> string \<Rightarrow> bool" where
  "str_includes s t = sublist t s"

text \<open>\<^verbatim>\<open>s.startsWith(t)\<close>.\<close>

definition startsWith :: "string \<Rightarrow> string \<Rightarrow> bool" where
  "startsWith s t = prefix t s"

text \<open>\<^verbatim>\<open>xs.join(sep)\<close> on an array of strings.\<close>

fun join :: "string \<Rightarrow> string list \<Rightarrow> string" where
  "join sep [] = []"
| "join sep [x] = x"
| "join sep (x # y # ys) = x @ sep @ join sep (y # ys)"

section \<open>Package metadata\<close>

text \<open>
  The license information of a package: a string, an object with an optional
  \<^verbatim>\<open>type\<close> string, or an array of such values.
\<close>

datatype license_val =
    LStr string
  | LObj "string option"
  | LArr "license_val list"

text \<open>
  The object returned by \<^verbatim>\<open>npm view <name> --json\<close>, with the fields the evaluator
  reads. The program calls string methods on \<^verbatim>\<open>pkg.name\<close> without a guard, so the
  name is a string; it guards every other field, so every other field may be absent.
  \<^verbatim>\<open>pkg.time\<close> maps \<^verbatim>\<open>created\<close>, \<^verbatim>\<open>modified\<close> and each published version to a
  timestamp string.
\<close>

record package =
  pkg_name :: string
  pkg_version :: jsval
  pkg_description :: jsval
  pkg_time :: "(string \<times> string) list option"
  pkg_deprecated :: jsval
  pkg_types :: jsval
  pkg_typings :: jsval
  pkg_repository :: jsval
  pkg_keywords :: "string list option"
  pkg_homepage :: jsval
  pkg_maintainers :: "jsval list option"
  pkg_license :: "license_val option"
  pkg_licenses :: "license_val option"

section \<open>The clock\<close>

text \<open>
  \<^verbatim>\<open>new Date()\<close> reads the wall clock and \<^verbatim>\<open>new Date(s)\<close> parses a timestamp; both
  are taken as given. \<open>clock_now\<close> is the current time in milliseconds since the epoch,
  \<open>date_parse s\<close> the time value of \<^verbatim>\<open>new Date(s)\<close>, \<open>None\<close> for an invalid date
  (whose time value is \<^verbatim>\<open>NaN\<close>).
\<close>

record clock =
  clock_now :: int
  date_parse :: "string \<Rightarrow> int option"

text \<open>\<^verbatim>\<open>pkg.time?.k\<close>, \<open>None\<close> for \<^verbatim>\<open>undefined\<close>.\<close>

definition time_prop :: "package \<Rightarrow> string \<Rightarrow> string option" where
  "time_prop pkg k = (case pkg_time pkg of None \<Rightarrow> None | Some t \<Rightarrow> map_of t k)"

text \<open>\<^verbatim>\<open>pkg.time?.modified || pkg.time?.created\<close>; the empty string is falsy.\<close>

definition lastPublishField :: "package \<Rightarrow> string option" where
  "lastPublishField pkg =
     (case time_prop pkg ''modified'' of
        Some (c # cs) \<Rightarrow> Some (c # cs)
      | _ \<Rightarrow> time_prop pkg ''created'')"

text \<open>
  The time value of \<^verbatim>\<open>new Date(pkg.time?.modified || pkg.time?.created || 0)\<close>;
  \<^verbatim>\<open>new Date(0)\<close> is the epoch.
\<close>

definition lastPublish :: "clock \<Rightarrow> package \<Rightarrow> int option" where
  "lastPublish clk pkg =
     (case lastPublishField pkg of
        Some (c # cs) \<Rightarrow> date_parse clk (c # cs)
      | _ \<Rightarrow> Some 0)"

text \<open>
  \<^verbatim>\<open>(now - lastPublish) / (1000 * 60 * 60 * 24 * 30)\<close>; \<open>None\<close> is \<^verbatim>\<open>NaN\<close>. Time
  values are whole milliseconds, so the quotient is compared with 6, 12, 24 and 36 as
  the exact quotient is: a quotient below a bound is below it by at least
  \<open>1 / 2592000000\<close>, far more than the rounding of a double near 36.
\<close>

definition monthsSincePublish :: "clock \<Rightarrow> package \<Rightarrow> rat option" where
  "monthsSincePublish clk pkg =
     map_option (\<lambda>t. of_int (clock_now clk - t) / (1000 * 60 * 60 * 24 * 30))
       (lastPublish clk pkg)"

text \<open>\<^verbatim>\<open>x < c\<close> and \<^verbatim>\<open>x > c\<close> on numbers: both are false when \<open>x\<close> is \<^verbatim>\<open>NaN\<close>.\<close>

definition num_lt :: "rat option \<Rightarrow> rat \<Rightarrow> bool" where
  "num_lt x c = (case x of None \<Rightarrow> False | Some v \<Rightarrow> v < c)"

definition num_gt :: "rat option \<Rightarrow> rat \<Rightarrow> bool" where
  "num_gt x c = (case x of None \<Rightarrow> False | Some v \<Rightarrow> v > c)"

section \<open>The four scoring functions\<close>

definition calculateMaintenanceScore :: "clock \<Rightarrow> package \<Rightarrow> int" where
  "calculateMaintenanceScore clk pkg =
     (let score = 0;
          months = monthsSincePublish clk pkg;
          score = (if num_lt months 6 then score + 3
                   else if num_lt months 12 then score + 2
                   else if num_lt months 24 then score + 1
                   else if num_gt months 36 then score - 5
                   else score);
          score = (if truthy (pkg_deprecated pkg) then 0 else score);
          versions = filter (\<lambda>v. v \<noteq> ''created'' \<and> v \<noteq> ''modified'')
                       (object_keys (case pkg_time pkg of None \<Rightarrow> [] | Some t \<Rightarrow> t));
          score = (if length versions > 10 then score + 2
                   else if length versions > 5 then score + 1
                   else score)
      in max 0 (min 10 score))"

definition calculatePopularityScore :: "rat \<Rightarrow> int" where
  "calculatePopularityScore downloads =
     (if downloads \<ge> 10000000 then 10
      else if downloads \<ge> 1000000 then 8
      else if downloads \<ge> 100000 then 6
      else if downloads \<ge> 10000 then 4
      else if downloads \<ge> 1000 then 2
      else 1)"

text \<open>\<^verbatim>\<open>xs && xs.length > 0\<close> on an optional array (an array is truthy, also when empty).\<close>

definition nonempty_array :: "'a list option \<Rightarrow> bool" where
  "nonempty_array xs = (case xs of None \<Rightarrow> False | Some ys \<Rightarrow> length ys > 0)"

definition calculateQualityScore :: "package \<Rightarrow> int" where
  "calculateQualityScore pkg =
     (let score = 0;
          score = (if truthy (js_or (pkg_types pkg) (pkg_typings pkg)) then score + 3
                   else if startsWith (pkg_name pkg) ''@types/'' then score + 2
                   else score);
          score = (if truthy (pkg_repository pkg) then score + 1 else score);
          score = (if nonempty_array (pkg_keywords pkg) then score + 1 else score);
          score = (if truthy (pkg_homepage pkg) then score + 1 else score);
          score = (if nonempty_array (pkg_maintainers pkg) then score + 1 else score)
      in min 10 score)"

definition calculateSecurityScore :: "package \<Rightarrow> int" where
  "calculateSecurityScore pkg =
     (let score = 10;
          score = (if truthy (pkg_deprecated pkg) then score - 8 else score);
          name = toLowerCase (pkg_name pkg);
          score = (if str_includes name ''test'' \<and> str_includes name ''package'' then score - 3
                   else score)
      in max 0 score)"

section \<open>Double-precision arithmetic\<close>

text \<open>
  The composite score is computed in IEEE 754 double precision, and its weights
  \<^verbatim>\<open>0.15\<close>, \<^verbatim>\<open>0.20\<close> and \<^verbatim>\<open>0.10\<close> are not doubles. A double is represented
  by the rational number it denotes; \<open>double_of x\<close> is the double nearest to \<open>x\<close>, ties
  to the even significand (53 significant bits). Every number of the computation lies
  between \<open>0\<close> and \<open>110\<close> in magnitude and is zero or at least \<open>1 / 10\<close>, so
  neither overflow nor the subnormal range is ever met, and the exponent is left
  unbounded.
\<close>

fun bitlen :: "nat \<Rightarrow> nat" where
  "bitlen n = (if n = 0 then 0 else Suc (bitlen (n div 2)))"

declare bitlen.simps [simp del]

text \<open>\<open>ilog2 x\<close> is the exponent \<open>e\<close> with \<open>2\<^sup>e \<le> x < 2\<^sup>e\<^sup>+\<^sup>1\<close>, for \<open>x > 0\<close>.\<close>

definition ilog2 :: "rat \<Rightarrow> int" where
  "ilog2 x = (if 1 \<le> x then int (bitlen (nat \<lfloor>x\<rfloor>)) - 1
              else - int (bitlen (nat (\<lceil>1 / x\<rceil> - 1))))"

definition round_half_even :: "rat \<Rightarrow> int" where
  "round_half_even y =
     (let f = \<lfloor>y\<rfloor>; r = y - of_int f
      in if r < 1 / 2 then f else if r > 1 / 2 then f + 1 else if even f then f else f + 1)"

definition double_of :: "rat \<Rightarrow> rat" where
  "double_of x =
     (if x = 0 then 0
      else let e = ilog2 \<bar>x\<bar>
           in if e \<le> 52
              then of_int (round_half_even (x * 2 ^ nat (52 - e))) / 2 ^ nat (52 - e)
              else of_int (round_half_even (x / 2 ^ nat (e - 52))) * 2 ^ nat (e - 52))"

text \<open>\<^verbatim>\<open>a + b\<close>, \<^verbatim>\<open>a * b\<close> and \<^verbatim>\<open>a / b\<close> on doubles: the exact result, rounded.\<close>

definition js_add :: "rat \<Rightarrow> rat \<Rightarrow> rat" where
  "js_add a b = double_of (a + b)"

definition js_mul :: "rat \<Rightarrow> rat \<Rightarrow> rat" where
  "js_mul a b = double_of (a * b)"

definition js_div :: "rat \<Rightarrow> rat \<Rightarrow> rat" where
  "js_div a b = double_of (a / b)"

text \<open>\<^verbatim>\<open>Math.round(x)\<close>: the nearest integer, a tie going up. It involves no rounding error.\<close>

definition Math_round :: "rat \<Rightarrow> int" where
  "Math_round x = \<lfloor>x + 1 / 2\<rfloor>"

text \<open>
  The weighted sum of \<^verbatim>\<open>evaluatePackage\<close>, with the additions in the order the
  source evaluates them; a literal such as \<^verbatim>\<open>0.15\<close> is the double nearest to it.
\<close>

definition compositeScore :: "int \<Rightarrow> int \<Rightarrow> int \<Rightarrow> int \<Rightarrow> rat" where
  "compositeScore quality maintenance security popularity =
     js_add
       (js_add
          (js_add
             (js_add (js_mul (of_int quality) (double_of (15 / 100)))
                     (js_mul (of_int maintenance) (double_of (25 / 100))))
             (js_mul (of_int security) (double_of (20 / 100))))
          (js_mul (of_int popularity) (double_of (10 / 100))))
       (double_of 3)"

text \<open>\<^verbatim>\<open>Math.round(compositeScore * 10)\<close>: the composite score in tenths.\<close>

definition composite_tenths :: "int \<Rightarrow> int \<Rightarrow> int \<Rightarrow> int \<Rightarrow> int" where
  "composite_tenths quality maintenance security popularity =
     Math_round (js_mul (compositeScore quality maintenance security popularity) 10)"

text \<open>\<^verbatim>\<open>Math.round(compositeScore * 10) / 10\<close>: the composite score of the result.\<close>

definition composite_of :: "int \<Rightarrow> int \<Rightarrow> int \<Rightarrow> int \<Rightarrow> rat" where
  "composite_of quality maintenance security popularity =
     js_div (of_int (composite_tenths quality maintenance security popularity)) 10"

text \<open>
  The composite score as the specification writes it, in exact arithmetic:
  \<^verbatim>\<open>quality*0.15 + maintenance*0.25 + security*0.20 + popularity*0.10 + 3.0\<close>.
\<close>

definition exact_composite :: "int \<Rightarrow> int \<Rightarrow> int \<Rightarrow> int \<Rightarrow> rat" where
  "exact_composite quality maintenance security popularity =
     of_int quality * (15 / 100) + of_int maintenance * (25 / 100)
       + of_int security * (20 / 100) + of_int popularity * (10 / 100) + 3"

text \<open>A bound on the rounding error of one operation whose result is below 128.\<close>

definition double_error :: rat where
  "double_error = 1 / 2 ^ 47"

section \<open>Licenses\<close>

text \<open>
  The string that \<^verbatim>\<open>join\<close> makes of an array element: a string is itself, an object
  is \<^verbatim>\<open>[object Object]\<close>, an array is its elements joined with a comma.
\<close>

fun license_to_string :: "license_val \<Rightarrow> string" where
  "license_to_string (LStr s) = s"
| "license_to_string (LObj t) = ''[object Object]''"
| "license_to_string (LArr xs) = join '','' (map license_to_string xs)"

text \<open>\<^verbatim>\<open>l.type || l\<close>, as the string that \<^verbatim>\<open>join\<close> makes of it.\<close>

fun license_entry :: "license_val \<Rightarrow> string" where
  "license_entry (LObj (Some (c # cs))) = c # cs"
| "license_entry l = license_to_string l"

definition detectLicense :: "package \<Rightarrow> string" where
  "detectLicense pkg =
     (case pkg_license pkg of
        Some (LStr s) \<Rightarrow> s
      | Some (LObj (Some (c # cs))) \<Rightarrow> c # cs
      | _ \<Rightarrow>
          (case pkg_licenses pkg of
             Some (LArr ls) \<Rightarrow> join '', '' (map license_entry ls)
           | _ \<Rightarrow> ''Unknown''))"

definition compatible :: "string list" where
  "compatible = [''MIT'', ''Apache-2.0'', ''BSD-2-Clause'', ''BSD-3-Clause'', ''ISC'',
                 ''CC0-1.0'', ''0BSD'']"

definition problematic :: "string list" where
  "problematic = [''GPL-3.0'', ''AGPL-3.0'', ''AGPL'']"

definition isLicenseCompatible :: "string \<Rightarrow> string" where
  "isLicenseCompatible license =
     (let upperLicense = toUpperCase license
      in if list_ex (\<lambda>l. str_includes upperLicense (toUpperCase l)) compatible
         then ''compatible''
         else if list_ex (\<lambda>l. str_includes upperLicense (toUpperCase l)) problematic
         then ''problematic''
         else ''unknown'')"

section \<open>The registry\<close>

text \<open>
  The outside world of one run: \<open>execSync cmd\<close> is the standard output of the command,
  or the message of the error it throws; \<open>https_get url\<close> is the body received when the
  response ends, or a network error; \<^verbatim>\<open>JSON.parse\<close> gives a value or throws, and is read
  at the type its caller uses.
\<close>

datatype http_response = NetworkError | Body string

text \<open>
  A parsed download-statistics body: \<^verbatim>\<open>null\<close>, an object whose \<^verbatim>\<open>downloads\<close>
  property is absent or a number, or a value with no such property (a number, a
  string, a boolean, an array).
\<close>

datatype stats = StatsNull | StatsObject "rat option" | StatsOther

record registry =
  execSync :: "string \<Rightarrow> string + string"
  parse_package :: "string \<Rightarrow> string + package"
  https_get :: "string \<Rightarrow> http_response"
  parse_stats :: "string \<Rightarrow> stats option"

definition getPackageInfo :: "registry \<Rightarrow> string \<Rightarrow> string + package" where
  "getPackageInfo reg packageName =
     (let cmd = ''npm view '' @ packageName @ '' --json''
      in case execSync reg cmd of
           Inl message \<Rightarrow> Inl (''Failed to fetch info for '' @ packageName @ '': '' @ message)
         | Inr output \<Rightarrow>
             (case parse_package reg output of
                Inl message \<Rightarrow>
                  Inl (''Failed to fetch info for '' @ packageName @ '': '' @ message)
              | Inr pkg \<Rightarrow> Inr pkg))"

text \<open>The address that \<^verbatim>\<open>getDownloadStats\<close> requests.\<close>

definition downloads_url :: "string \<Rightarrow> string" where
  "downloads_url packageName = ''https://api.npmjs.org/downloads/point/last-week/'' @ packageName"

text \<open>
  The value the promise of \<^verbatim>\<open>getDownloadStats\<close> resolves to. Reading
  \<^verbatim>\<open>stats.downloads\<close> of \<^verbatim>\<open>null\<close> throws inside the \<^verbatim>\<open>try\<close>, as a syntax error
  does; \<^verbatim>\<open>stats.downloads || 0\<close> is 0 for an absent property and for the number 0.
\<close>

definition getDownloadStats :: "registry \<Rightarrow> string \<Rightarrow> rat" where
  "getDownloadStats reg packageName =
     (let url = downloads_url packageName
      in case https_get reg url of
           NetworkError \<Rightarrow> 0
         | Body data \<Rightarrow>
             (case parse_stats reg data of
                None \<Rightarrow> 0
              | Some StatsNull \<Rightarrow> 0
              | Some StatsOther \<Rightarrow> 0
              | Some (StatsObject None) \<Rightarrow> 0
              | Some (StatsObject (Some downloads)) \<Rightarrow>
                  (if downloads \<noteq> 0 then downloads else 0)))"

section \<open>Evaluating one package and a batch\<close>

record scores =
  maintenance :: int
  popularity :: int
  quality :: int
  security :: int
  composite :: rat

record evaluation =
  ev_name :: string
  ev_version :: jsval
  ev_description :: jsval
  ev_downloads :: rat
  ev_lastPublish :: "string option"
  ev_deprecated :: jsval
  ev_license :: string
  ev_licenseCompatibility :: string
  ev_repository :: jsval
  ev_homepage :: jsval
  ev_hasTypes :: bool
  ev_keywords :: "string list"
  ev_maintainers :: nat
  ev_scores :: scores

text \<open>
  What \<^verbatim>\<open>evaluatePackage\<close> returns: the full record, or the record of its
  \<^verbatim>\<open>catch\<close> branch with the name, the error message and the scores.
\<close>

datatype evaluation_result =
    Evaluated evaluation
  | Failed string string scores

text \<open>The \<^verbatim>\<open>scores\<close> object of the \<^verbatim>\<open>try\<close> branch, from the metadata and the downloads.\<close>

definition score_record :: "clock \<Rightarrow> package \<Rightarrow> rat \<Rightarrow> scores" where
  "score_record clk pkg downloads =
     (let maintenance = calculateMaintenanceScore clk pkg;
          popularity = calculatePopularityScore downloads;
          quality = calculateQualityScore pkg;
          security = calculateSecurityScore pkg
      in \<lparr> maintenance = maintenance, popularity = popularity, quality = quality,
           security = security,
           composite = composite_of quality maintenance security popularity \<rparr>)"

definition zero_scores :: scores where
  "zero_scores = \<lparr> maintenance = 0, popularity = 0, quality = 0, security = 0, composite = 0 \<rparr>"

definition evaluatePackage :: "clock \<Rightarrow> registry \<Rightarrow> string \<Rightarrow> evaluation_result" where
  "evaluatePackage clk reg packageName =
     (case getPackageInfo reg packageName of
        Inl message \<Rightarrow> Failed packageName message zero_scores
      | Inr pkg \<Rightarrow>
          (let downloads = getDownloadStats reg packageName;
               license = detectLicense pkg;
               licenseCompatibility = isLicenseCompatible license
           in Evaluated
                \<lparr> ev_name = packageName,
                  ev_version = pkg_version pkg,
                  ev_description = pkg_description pkg,
                  ev_downloads = downloads,
                  ev_lastPublish = lastPublishField pkg,
                  ev_deprecated = js_or (pkg_deprecated pkg) (JBool False),
                  ev_license = license,
                  ev_licenseCompatibility = licenseCompatibility,
                  ev_repository = opt_prop (pkg_repository pkg) ''url'',
                  ev_homepage = pkg_homepage pkg,
                  ev_hasTypes = truthy (js_or (pkg_types pkg) (pkg_typings pkg)),
                  ev_keywords = (case pkg_keywords pkg of None \<Rightarrow> [] | Some ks \<Rightarrow> ks),
                  ev_maintainers =
                    (case pkg_maintainers pkg of None \<Rightarrow> 0 | Some ms \<Rightarrow> length ms),
                  ev_scores = score_record clk pkg downloads \<rparr>))"


section \<open>Example inputs\<close>

text \<open>A package of which the registry knows the name only.\<close>

definition bare_package :: "string \<Rightarrow> package" where
  "bare_package n =
     \<lparr> pkg_name = n, pkg_version = JUndefined, pkg_description = JUndefined,
       pkg_time = None, pkg_deprecated = JUndefined, pkg_types = JUndefined,
       pkg_typings = JUndefined, pkg_repository = JUndefined, pkg_keywords = None,
       pkg_homepage = JUndefined, pkg_maintainers = None, pkg_license = None,
       pkg_licenses = None \<rparr>"

text \<open>A deprecated package with eleven published versions.\<close>

definition deprecated_package :: package where
  "deprecated_package =
     (bare_package ''request'')
       \<lparr> pkg_deprecated := JStr ''request has been deprecated'',
         pkg_time := Some
           [(''created'', ''2011-01-22T00:00:00.000Z''),
            (''modified'', ''2023-07-01T00:00:00.000Z''),
            (''2.78.0'', ''2016-11-03T00:00:00.000Z''),
            (''2.79.0'', ''2016-11-18T00:00:00.000Z''),
            (''2.80.0'', ''2017-03-04T00:00:00.000Z''),
            (''2.81.0'', ''2017-03-09T00:00:00.000Z''),
            (''2.82.0'', ''2017-09-19T00:00:00.000Z''),
            (''2.83.0'', ''2017-09-27T00:00:00.000Z''),
            (''2.84.0'', ''2018-03-12T00:00:00.000Z''),
            (''2.85.0'', ''2018-03-12T00:00:00.000Z''),
            (''2.86.0'', ''2018-05-15T00:00:00.000Z''),
            (''2.87.0'', ''2018-05-21T00:00:00.000Z''),
            (''2.88.0'', ''2018-08-10T00:00:00.000Z'')] \<rparr>"

text \<open>A clock that reads \<open>now\<close> and parses every timestamp to \<open>t\<close>.\<close>

definition fixed_clock :: "int \<Rightarrow> int \<Rightarrow> clock" where
  "fixed_clock now t = \<lparr> clock_now = now, date_parse = (\<lambda>s. Some t) \<rparr>"

text \<open>Packages with each shape of license information.\<close>

definition string_license_package :: package where
  "string_license_package = (bare_package ''left-pad'') \<lparr> pkg_license := Some (LStr ''WTFPL'') \<rparr>"

definition object_license_package :: package where
  "object_license_package =
     (bare_package ''config'') \<lparr> pkg_license := Some (LObj (Some ''Apache-2.0'')) \<rparr>"

definition two_licenses_package :: package where
  "two_licenses_package =
     (bare_package ''jszip'')
       \<lparr> pkg_licenses := Some (LArr [LObj (Some ''MIT''), LStr ''GPL-3.0'']) \<rparr>"

definition mit_list_package :: package where
  "mit_list_package = (bare_package ''json-schema'') \<lparr> pkg_licenses := Some (LArr [LObj (Some ''MIT'')]) \<rparr>"

text \<open>
  A registry that knows the package \<^verbatim>\<open>left-pad\<close> only, one that is unreachable, one
  whose download statistics are not JSON, and one that reports a negative download
  count.
\<close>

definition example_registry :: registry where
  \<open>example_registry =
     \<lparr> execSync = (\<lambda>cmd. if cmd = ''npm view left-pad --json''
                         then Inr ''{"name":"left-pad","version":"1.3.0"}''
                         else Inl (''Command failed: '' @ cmd)),
       parse_package = (\<lambda>output. if output = ''{"name":"left-pad","version":"1.3.0"}''
                         then Inr ((bare_package ''left-pad'') \<lparr> pkg_version := JStr ''1.3.0'' \<rparr>)
                         else Inl ''Unexpected end of JSON input''),
       https_get = (\<lambda>url. Body ''{"downloads":1500000}''),
       parse_stats = (\<lambda>data. if data = ''{"downloads":1500000}''
                         then Some (StatsObject (Some 1500000)) else None) \<rparr>\<close>




section \<open>Notions of the specification\<close>

text \<open>
  \<open>pkg.license\<close> decides nothing: it is absent, or is not a string and has no non-empty
  \<^verbatim>\<open>type\<close>.
\<close>

definition license_undecided :: "package \<Rightarrow> bool" where
  "license_undecided pkg =
     (case pkg_license pkg of
        None \<Rightarrow> True
      | Some (LStr s) \<Rightarrow> False
      | Some (LObj None) \<Rightarrow> True
      | Some (LObj (Some t)) \<Rightarrow> t = []
      | Some (LArr ls) \<Rightarrow> True)"

text \<open>A license-like entry of a list: a plain string, or an object with a type.\<close>

definition plain_or_typed :: "license_val \<Rightarrow> bool" where
  "plain_or_typed l = (case l of LStr s \<Rightarrow> True | LObj (Some t) \<Rightarrow> t \<noteq> [] | _ \<Rightarrow> False)"

text \<open>The type of such an entry.\<close>

fun entry_type :: "license_val \<Rightarrow> string" where
  "entry_type (LStr s) = s"
| "entry_type (LObj (Some t)) = t"
| "entry_type l = []"

text \<open>
  A case-insensitive substring match: some substring of the license string equals the
  list entry up to the case of its letters.
\<close>

definition contains_ignoring_case :: "string \<Rightarrow> string \<Rightarrow> bool" where
  "contains_ignoring_case license entry =
     (\<exists>u. sublist u license \<and> toUpperCase u = toUpperCase entry)"

section \<open>The rounding function\<close>

text \<open>
  The exponent that \<open>ilog2\<close> computes is the binary exponent of its argument, and
  \<open>double_of\<close> rounds to a nearest number with a significand of 53 bits.
\<close>

lemma bitlen_bounds: "0 < n \<Longrightarrow> 2 ^ (bitlen n - 1) \<le> n \<and> n < 2 ^ bitlen n"
proof (induction n rule: bitlen.induct)
  case (1 n)
  show ?case
  proof (cases "n div 2 = 0")
    case True
    with "1.prems" have "n = 1" by (simp add: div_eq_0_iff) 
    then show ?thesis by (simp add: bitlen.simps [of "Suc 0"] bitlen.simps [of 0])
  next
    case False
    define b where "b = bitlen (n div 2)"
    from False "1.prems" have ih: "2 ^ (b - 1) \<le> n div 2 \<and> n div 2 < 2 ^ b"
      unfolding b_def by (intro "1.IH") auto
    have b: "0 < b" using False unfolding b_def by (subst bitlen.simps) simp
    have bn: "bitlen n = Suc b" using "1.prems" unfolding b_def by (subst bitlen.simps) simp
    from b have p: "(2::nat) ^ b = 2 * 2 ^ (b - 1)" by (cases b) simp_all
    from ih have "2 * 2 ^ (b - 1) \<le> n" by linarith
    moreover from ih have "n < 2 * 2 ^ b" by linarith
    ultimately show ?thesis unfolding bn using p by simp
  qed
qed

lemma ilog2_bounds:
  assumes "0 < x"
  shows "2 powi ilog2 x \<le> x \<and> x < 2 powi (ilog2 x + 1)"
proof (cases "1 \<le> x")
  case True
  define n where "n = nat \<lfloor>x\<rfloor>"
  have n: "0 < n" "of_nat n \<le> x" "x < of_nat n + 1"
    using True unfolding n_def by (simp_all add: le_floor_iff) linarith+
  define b where "b = bitlen n"
  from bitlen_bounds [OF n(1)] have bb: "2 ^ (b - 1) \<le> n" "n < 2 ^ b"
    unfolding b_def by simp_all
  then have b: "0 < b" using n(1) by (cases b) simp_all
  have e: "ilog2 x = int (b - 1)" "ilog2 x + 1 = int b"
    using True b by (simp_all add: ilog2_def n_def b_def)
  have p1: "(2::rat) powi ilog2 x = 2 ^ (b - 1)"
    by (simp only: e(1) power_int_of_nat)
  have p2: "(2::rat) powi (ilog2 x + 1) = 2 ^ b"
    by (simp only: e(2) power_int_of_nat)
  have "(2::rat) ^ (b - 1) = of_nat (2 ^ (b - 1))" by simp
  also have "\<dots> \<le> of_nat n" using bb(1) by (simp only: of_nat_le_iff)
  also have "\<dots> \<le> x" by (rule n(2))
  finally have lo: "(2::rat) ^ (b - 1) \<le> x" .
  have "n + 1 \<le> 2 ^ b" using bb(2) by simp
  then have "(of_nat (n + 1) :: rat) \<le> of_nat (2 ^ b)" by (simp only: of_nat_le_iff)
  moreover have "(of_nat (n + 1) :: rat) = of_nat n + 1" by simp
  moreover have "(of_nat (2 ^ b) :: rat) = 2 ^ b" by simp
  ultimately have hi: "x < (2::rat) ^ b" using n(3) by linarith
  show ?thesis unfolding p1 p2 using lo hi by blast
next
  case False
  with assms have x: "0 < x" "x < 1" by simp_all
  then have inv: "1 < 1 / x" by simp
  define c where "c = \<lceil>1 / x\<rceil>"
  have c: "1 / x \<le> of_int c" "of_int c - 1 < 1 / x" "2 \<le> c"
    using inv unfolding c_def by (simp_all add: le_ceiling_iff) linarith+
  define n where "n = nat (c - 1)"
  have n: "0 < n" "int n = c - 1" using c(3) unfolding n_def by simp_all
  define b where "b = bitlen n"
  from bitlen_bounds [OF n(1)] have bb: "2 ^ (b - 1) \<le> n" "n < 2 ^ b"
    unfolding b_def by simp_all
  then have b: "0 < b" using n(1) by (cases b) simp_all
  have e: "ilog2 x = - int b"
    using False by (simp add: ilog2_def b_def n_def c_def)
  have "int n + 1 \<le> int (2 ^ b)" using bb(2) by linarith
  then have "c \<le> 2 ^ b" using n(2) by simp
  then have "(of_int c :: rat) \<le> of_int (2 ^ b)" by (simp only: of_int_le_iff)
  moreover have "(of_int (2 ^ b) :: rat) = 2 ^ b" by simp
  ultimately have "1 / x \<le> 2 ^ b" using c(1) by linarith
  then have lo: "1 / 2 ^ b \<le> x" using x(1) by (simp add: field_simps)
  have "int (2 ^ (b - 1)) \<le> int n" using bb(1) by (simp only: of_nat_le_iff)
  then have "2 ^ (b - 1) \<le> c - 1" using n(2) by simp
  then have "(of_int (2 ^ (b - 1)) :: rat) \<le> of_int (c - 1)" by (simp only: of_int_le_iff)
  moreover have "(of_int (2 ^ (b - 1)) :: rat) = 2 ^ (b - 1)" by simp
  moreover have "(of_int (c - 1) :: rat) = of_int c - 1" by simp
  ultimately have "2 ^ (b - 1) < 1 / x" using c(2) by linarith
  then have hi: "x < 1 / 2 ^ (b - 1)" using x(1) by (simp add: field_simps)
  have p1: "(2::rat) powi ilog2 x = 1 / 2 ^ b"
    unfolding e by (simp add: power_int_minus field_simps)
  have "ilog2 x + 1 = - int (b - 1)" using b e by simp
  then have p2: "(2::rat) powi (ilog2 x + 1) = 1 / 2 ^ (b - 1)"
    by (simp add: power_int_minus field_simps)
  show ?thesis unfolding p1 p2 using lo hi by blast
qed

lemma round_half_even_error: "\<bar>of_int (round_half_even y) - y\<bar> \<le> 1 / 2"
proof -
  have "of_int \<lfloor>y\<rfloor> \<le> y" and "y < of_int \<lfloor>y\<rfloor> + 1" by linarith+
  then show ?thesis
    by (auto simp: round_half_even_def Let_def)
qed

lemma round_half_even_between: "\<lfloor>y\<rfloor> \<le> round_half_even y \<and> round_half_even y \<le> \<lceil>y\<rceil>"
proof -
  have "\<lceil>y\<rceil> = \<lfloor>y\<rfloor> + 1" if "y - of_int \<lfloor>y\<rfloor> \<ge> 1 / 2"
  proof -
    from that have "of_int \<lfloor>y\<rfloor> < y" by linarith
    then show ?thesis by (simp add: ceiling_altdef)
  qed
  moreover have "\<lfloor>y\<rfloor> \<le> \<lceil>y\<rceil>" by (rule floor_le_ceiling)
  ultimately show ?thesis
    by (auto simp: round_half_even_def Let_def not_less)
qed

lemma double_of_scaled:
  assumes "x \<noteq> 0"
  shows "double_of x =
    of_int (round_half_even (x / 2 powi (ilog2 \<bar>x\<bar> - 52))) * 2 powi (ilog2 \<bar>x\<bar> - 52)"
proof (cases "ilog2 \<bar>x\<bar> \<le> 52")
  case True
  then have "(2::rat) powi (ilog2 \<bar>x\<bar> - 52) = 1 / 2 ^ nat (52 - ilog2 \<bar>x\<bar>)"
    by (simp add: power_int_def power_inverse field_simps)
  with True assms show ?thesis by (simp add: double_of_def Let_def)
next
  case False
  then have "(2::rat) powi (ilog2 \<bar>x\<bar> - 52) = 2 ^ nat (ilog2 \<bar>x\<bar> - 52)"
    by (simp add: power_int_def)
  with False assms show ?thesis by (simp add: double_of_def Let_def)
qed

text \<open>
  \<open>double_of x\<close> is a number with a significand of 53 bits at the exponent of \<open>x\<close>
  (or the next power of two), and no such number is nearer to \<open>x\<close>: it is within half
  a unit in the last place.
\<close>

lemma double_of_nearest:
  assumes "x \<noteq> 0"
  shows "\<exists>n. double_of x = of_int n * 2 powi (ilog2 \<bar>x\<bar> - 52)
    \<and> 2 ^ 52 \<le> \<bar>n\<bar> \<and> \<bar>n\<bar> \<le> 2 ^ 53
    \<and> \<bar>double_of x - x\<bar> \<le> 2 powi (ilog2 \<bar>x\<bar> - 53)"
proof -
  define e where "e = ilog2 \<bar>x\<bar>"
  define u :: rat where "u = 2 powi (e - 52)"
  define y where "y = x / u"
  define n where "n = round_half_even y"
  have u: "0 < u" by (simp add: u_def)
  have d: "double_of x = of_int n * u"
    unfolding n_def y_def u_def e_def using assms by (rule double_of_scaled)
  have xy: "x = y * u" using u by (simp add: y_def)
  from assms have "0 < \<bar>x\<bar>" by simp
  then have b: "2 powi e \<le> \<bar>x\<bar>" "\<bar>x\<bar> < 2 powi (e + 1)"
    unfolding e_def using ilog2_bounds by blast+
  have "(2::rat) powi e = 2 ^ 52 * u" "(2::rat) powi (e + 1) = 2 ^ 53 * u"
    by (simp_all add: u_def power_int_diff power_int_add)
  with b have "2 ^ 52 * u \<le> \<bar>y\<bar> * u" "\<bar>y\<bar> * u < 2 ^ 53 * u"
    using u by (simp_all add: xy abs_mult)
  with u have y: "2 ^ 52 \<le> \<bar>y\<bar>" "\<bar>y\<bar> < 2 ^ 53" by simp_all
  have r: "\<lfloor>y\<rfloor> \<le> n" "n \<le> \<lceil>y\<rceil>"
    unfolding n_def using round_half_even_between by blast+
  have z: "(0::int) < 2 ^ 52" "(0::int) < 2 ^ 53" by simp_all
  have n: "2 ^ 52 \<le> \<bar>n\<bar> \<and> \<bar>n\<bar> \<le> 2 ^ 53"
  proof (cases "0 \<le> y")
    case True
    with y have "(of_int (2 ^ 52) :: rat) \<le> y" "y \<le> of_int (2 ^ 53)" by simp_all
    then have "2 ^ 52 \<le> \<lfloor>y\<rfloor>" "\<lceil>y\<rceil> \<le> 2 ^ 53"
      by (simp_all only: le_floor_iff ceiling_le_iff)
    with r z show ?thesis by linarith
  next
    case False
    with y have "(of_int (- (2 ^ 53)) :: rat) \<le> y" "y \<le> of_int (- (2 ^ 52))" by simp_all
    then have "- (2 ^ 53) \<le> \<lfloor>y\<rfloor>" "\<lceil>y\<rceil> \<le> - (2 ^ 52)"
      by (simp_all only: le_floor_iff ceiling_le_iff)
    with r z show ?thesis by linarith
  qed
  have "\<bar>of_int n - y\<bar> \<le> 1 / 2"
    unfolding n_def by (rule round_half_even_error)
  then have "\<bar>of_int n - y\<bar> * u \<le> (1 / 2) * u"
    using u by (intro mult_right_mono) simp_all
  moreover have "double_of x - x = (of_int n - y) * u"
    unfolding d by (subst xy) (simp add: left_diff_distrib)
  then have "\<bar>double_of x - x\<bar> = \<bar>of_int n - y\<bar> * u"
    using u by (simp add: abs_mult)
  moreover have "(2::rat) powi (e - 53) = (1 / 2) * u"
    by (simp add: u_def power_int_diff)
  ultimately have "\<bar>double_of x - x\<bar> \<le> 2 powi (e - 53)" by simp
  with d n show ?thesis unfolding u_def e_def by blast
qed

section \<open>Rounding errors of the composite score\<close>

text \<open>
  Below 128 one rounding changes a number by at most \<open>double_error\<close>. The weighted
  sum is made of four products, four additions and five literals, so it differs from
  the exact weighted sum by at most 49 such errors; ten times the exact sum is a
  multiple of one half, and \<^verbatim>\<open>Math.round\<close> of a number that close to a multiple of one
  half is within one half of it.
\<close>

lemma bitlen_le: "n < 2 ^ w \<Longrightarrow> bitlen n \<le> w"
proof (induction w arbitrary: n)
  case 0
  then have "n = 0" by simp
  then show ?case by (simp add: bitlen.simps)
next
  case (Suc w)
  show ?case
  proof (cases "n = 0")
    case True
    then show ?thesis by (simp add: bitlen.simps)
  next
    case False
    from Suc.prems have "n div 2 < 2 ^ w" by simp
    then have "bitlen (n div 2) \<le> w" by (rule Suc.IH)
    with False show ?thesis by (subst bitlen.simps) simp
  qed
qed

lemma ilog2_le_6:
  assumes "0 < x" and "x < 128"
  shows "ilog2 x \<le> 6"
proof (cases "1 \<le> x")
  case True
  have "nat \<lfloor>x\<rfloor> < 128" using assms True by linarith
  then have "nat \<lfloor>x\<rfloor> < 2 ^ 7" by simp
  then have "bitlen (nat \<lfloor>x\<rfloor>) \<le> 7" by (rule bitlen_le)
  with True show ?thesis by (simp add: ilog2_def)
next
  case False
  then show ?thesis by (simp add: ilog2_def)
qed

lemma double_error_bounds: "0 < double_error" "double_error \<le> 1 / 1000000"
  by (simp_all add: double_error_def)

lemma double_of_error:
  assumes "\<bar>x\<bar> < 128"
  shows "\<bar>double_of x - x\<bar> \<le> double_error"
proof (cases "x = 0")
  case True
  then show ?thesis by (simp add: double_of_def double_error_def)
next
  case False
  define e where "e = ilog2 \<bar>x\<bar>"
  define n where "n = nat (52 - e)"
  from False assms have e6: "e \<le> 6" unfolding e_def by (intro ilog2_le_6) auto
  then have n46: "46 \<le> n" unfolding n_def by simp
  have d: "double_of x = of_int (round_half_even (x * 2 ^ n)) / 2 ^ n"
    using False e6 by (simp add: double_of_def Let_def e_def [symmetric] n_def)
  have p: "(2::rat) ^ 46 \<le> 2 ^ n" using n46 by (intro power_increasing) auto
  have pos: "(0::rat) < 2 ^ n" by simp
  define r :: rat where "r = of_int (round_half_even (x * 2 ^ n))"
  have "\<bar>r - x * 2 ^ n\<bar> \<le> 1 / 2"
    unfolding r_def by (rule round_half_even_error)
  then have "\<bar>r - x * 2 ^ n\<bar> / 2 ^ n \<le> (1 / 2) / 2 ^ n"
    by (intro divide_right_mono) auto
  moreover have "double_of x - x = (r - x * 2 ^ n) / 2 ^ n"
    unfolding d r_def by (simp add: field_simps)
  then have "\<bar>double_of x - x\<bar> = \<bar>r - x * 2 ^ n\<bar> / 2 ^ n"
    by (simp add: abs_divide)
  moreover have "(1 / 2) / (2::rat) ^ n \<le> (1 / 2) / 2 ^ 46"
    using p by (intro divide_left_mono) auto
  ultimately have "\<bar>double_of x - x\<bar> \<le> (1 / 2) / 2 ^ 46" by linarith
  then show ?thesis by (simp add: double_error_def)
qed

lemma js_mul_error:
  assumes "0 \<le> a" "a \<le> 10" "\<bar>c - c0\<bar> \<le> double_error" "0 \<le> c0" "c0 \<le> 1"
  shows "\<bar>js_mul a c - a * c0\<bar> \<le> 11 * double_error"
proof -
  note u = double_error_bounds
  have "a * c - a * c0 = a * (c - c0)"
    by (simp add: right_diff_distrib)
  then have "\<bar>a * c - a * c0\<bar> = \<bar>a\<bar> * \<bar>c - c0\<bar>"
    by (simp only: abs_mult)
  also have "\<dots> \<le> 10 * double_error"
    using assms by (intro mult_mono) auto
  finally have A: "\<bar>a * c - a * c0\<bar> \<le> 10 * double_error" .
  have "0 \<le> a * c0" using assms by simp
  moreover have "a * c0 \<le> 10 * 1" using assms by (intro mult_mono) auto
  ultimately have "\<bar>a * c\<bar> < 128" using A u by linarith
  then have "\<bar>double_of (a * c) - a * c\<bar> \<le> double_error" by (rule double_of_error)
  with A show ?thesis unfolding js_mul_def by linarith
qed

lemma js_add_error:
  assumes "\<bar>a - a0\<bar> \<le> ea" "\<bar>b - b0\<bar> \<le> eb" "\<bar>a0 + b0\<bar> \<le> 100" "ea + eb \<le> 1"
  shows "\<bar>js_add a b - (a0 + b0)\<bar> \<le> ea + eb + double_error"
proof -
  have "\<bar>a + b\<bar> < 128" using assms by linarith
  then have "\<bar>double_of (a + b) - (a + b)\<bar> \<le> double_error" by (rule double_of_error)
  with assms show ?thesis unfolding js_add_def by linarith
qed

lemma compositeScore_error:
  assumes "0 \<le> q" "q \<le> 10" "0 \<le> m" "m \<le> 10" "0 \<le> s" "s \<le> 10" "0 \<le> p" "p \<le> 10"
  shows "\<bar>compositeScore q m s p - exact_composite q m s p\<bar> \<le> 49 * double_error"
proof -
  note u = double_error_bounds
  define Q M S P :: rat where "Q = of_int q" and "M = of_int m" and "S = of_int s" and "P = of_int p"
  have r: "0 \<le> Q" "Q \<le> 10" "0 \<le> M" "M \<le> 10" "0 \<le> S" "S \<le> 10" "0 \<le> P" "P \<le> 10"
    using assms by (simp_all add: Q_def M_def S_def P_def)
  define a where "a = js_mul Q (double_of (15 / 100))"
  define b where "b = js_mul M (double_of (25 / 100))"
  define c where "c = js_mul S (double_of (20 / 100))"
  define d where "d = js_mul P (double_of (10 / 100))"
  have a: "\<bar>a - Q * (15 / 100)\<bar> \<le> 11 * double_error"
    unfolding a_def using r by (intro js_mul_error double_of_error) auto
  have b: "\<bar>b - M * (25 / 100)\<bar> \<le> 11 * double_error"
    unfolding b_def using r by (intro js_mul_error double_of_error) auto
  have c: "\<bar>c - S * (20 / 100)\<bar> \<le> 11 * double_error"
    unfolding c_def using r by (intro js_mul_error double_of_error) auto
  have d: "\<bar>d - P * (10 / 100)\<bar> \<le> 11 * double_error"
    unfolding d_def using r by (intro js_mul_error double_of_error) auto
  have t: "\<bar>double_of 3 - 3\<bar> \<le> double_error"
    by (intro double_of_error) auto
  have ab: "\<bar>js_add a b - (Q * (15 / 100) + M * (25 / 100))\<bar>
       \<le> 11 * double_error + 11 * double_error + double_error"
    using r u by (intro js_add_error a b) linarith+
  have abc: "\<bar>js_add (js_add a b) c - ((Q * (15 / 100) + M * (25 / 100)) + S * (20 / 100))\<bar>
       \<le> (11 * double_error + 11 * double_error + double_error) + 11 * double_error
          + double_error"
    using r u by (intro js_add_error ab c) linarith+
  have abcd: "\<bar>js_add (js_add (js_add a b) c) d
       - (((Q * (15 / 100) + M * (25 / 100)) + S * (20 / 100)) + P * (10 / 100))\<bar>
       \<le> ((11 * double_error + 11 * double_error + double_error) + 11 * double_error
          + double_error) + 11 * double_error + double_error"
    using r u by (intro js_add_error abc d) linarith+
  have all: "\<bar>js_add (js_add (js_add (js_add a b) c) d) (double_of 3)
       - ((((Q * (15 / 100) + M * (25 / 100)) + S * (20 / 100)) + P * (10 / 100)) + 3)\<bar>
       \<le> (((11 * double_error + 11 * double_error + double_error) + 11 * double_error
          + double_error) + 11 * double_error + double_error) + double_error + double_error"
    using r u by (intro js_add_error abcd t) linarith+
  have "compositeScore q m s p = js_add (js_add (js_add (js_add a b) c) d) (double_of 3)"
    by (simp add: compositeScore_def a_def b_def c_def d_def Q_def M_def S_def P_def)
  moreover have "exact_composite q m s p
      = (((Q * (15 / 100) + M * (25 / 100)) + S * (20 / 100)) + P * (10 / 100)) + 3"
    by (simp add: exact_composite_def Q_def M_def S_def P_def)
  ultimately show ?thesis using all by linarith
qed

lemma Math_round_half_grid:
  assumes "\<bar>y - of_int h / 2\<bar> < 1 / 4"
  shows "\<bar>of_int (Math_round y) - of_int h / 2\<bar> \<le> (1 / 2 :: rat)"
proof -
  define k where "k = Math_round y"
  have k: "of_int k \<le> y + 1 / 2" "y + 1 / 2 < of_int k + 1"
    unfolding k_def Math_round_def by linarith+
  have y: "of_int h / 2 - 1 / 4 < y" "y < of_int h / 2 + 1 / 4"
    using assms by linarith+
  have "(of_int (2 * k - h) :: rat) < of_int 2" "(of_int (- 2) :: rat) < of_int (2 * k - h)"
    using k y by simp_all
  then have "2 * k - h < 2" "- 2 < 2 * k - h"
    by (simp_all only: of_int_less_iff)
  then have "2 * k - h \<le> 1" "- 1 \<le> 2 * k - h"
    by linarith+
  then have "(of_int (2 * k - h) :: rat) \<le> of_int 1" "(of_int (- 1) :: rat) \<le> of_int (2 * k - h)"
    by (simp_all only: of_int_le_iff)
  then have "(of_int k :: rat) - of_int h / 2 \<le> 1 / 2" "- (1 / 2) \<le> (of_int k :: rat) - of_int h / 2"
    by simp_all
  then show ?thesis
    unfolding k_def [symmetric] by (simp only: abs_le_iff) simp
qed

section \<open>Ranges of the sub-scores\<close>

text \<open>
  The maintenance and security scores are clamped; the quality score collects at most
  3 + 1 + 1 + 1 + 1 points, so its cap of 10 is never reached; the popularity score is
  one of 1, 2, 4, 6, 8, 10.
\<close>

lemma clamp_0_10: "0 \<le> max 0 (min 10 (x::int)) \<and> max 0 (min 10 x) \<le> 10"
  by simp

lemma maintenance_range:
  "0 \<le> calculateMaintenanceScore clk pkg \<and> calculateMaintenanceScore clk pkg \<le> 10"
  unfolding calculateMaintenanceScore_def Let_def by (rule clamp_0_10)

lemma quality_range:
  "0 \<le> calculateQualityScore pkg \<and> calculateQualityScore pkg \<le> 7"
proof -
  define s1 :: int where "s1 =
    (if truthy (js_or (pkg_types pkg) (pkg_typings pkg)) then 0 + 3
     else if startsWith (pkg_name pkg) ''@types/'' then 0 + 2 else 0)"
  define s2 where "s2 = (if truthy (pkg_repository pkg) then s1 + 1 else s1)"
  define s3 where "s3 = (if nonempty_array (pkg_keywords pkg) then s2 + 1 else s2)"
  define s4 where "s4 = (if truthy (pkg_homepage pkg) then s3 + 1 else s3)"
  define s5 where "s5 = (if nonempty_array (pkg_maintainers pkg) then s4 + 1 else s4)"
  have q: "calculateQualityScore pkg = min 10 s5"
    unfolding calculateQualityScore_def Let_def s5_def s4_def s3_def s2_def s1_def ..
  have "0 \<le> s1 \<and> s1 \<le> 3" by (simp add: s1_def)
  moreover have "s1 \<le> s2 \<and> s2 \<le> s1 + 1" by (simp add: s2_def)
  moreover have "s2 \<le> s3 \<and> s3 \<le> s2 + 1" by (simp add: s3_def)
  moreover have "s3 \<le> s4 \<and> s4 \<le> s3 + 1" by (simp add: s4_def)
  moreover have "s4 \<le> s5 \<and> s5 \<le> s4 + 1" by (simp add: s5_def)
  ultimately have "0 \<le> s5 \<and> s5 \<le> 7" by linarith
  then show ?thesis unfolding q by simp
qed

lemma security_range:
  "0 \<le> calculateSecurityScore pkg \<and> calculateSecurityScore pkg \<le> 10"
  by (simp add: calculateSecurityScore_def Let_def)

lemma popularity_range:
  "1 \<le> calculatePopularityScore d \<and> calculatePopularityScore d \<le> 10"
  by (simp add: calculatePopularityScore_def)

section \<open>The sub-scores\<close>

text \<open>
  Claim C4. The popularity score is the step function of the weekly downloads with the
  thresholds 10,000,000 (10), 1,000,000 (8), 100,000 (6), 10,000 (4), 1,000 (2) and 1
  below; it never decreases when the downloads grow; 999 downloads score 1, 1000 score 2,
  99999 score 4 and 100000 score 6.
\<close>

theorem popularity_step_function:
  "(10000000 \<le> d \<longrightarrow> calculatePopularityScore d = 10)
   \<and> (1000000 \<le> d \<and> d < 10000000 \<longrightarrow> calculatePopularityScore d = 8)
   \<and> (100000 \<le> d \<and> d < 1000000 \<longrightarrow> calculatePopularityScore d = 6)
   \<and> (10000 \<le> d \<and> d < 100000 \<longrightarrow> calculatePopularityScore d = 4)
   \<and> (1000 \<le> d \<and> d < 10000 \<longrightarrow> calculatePopularityScore d = 2)
   \<and> (d < 1000 \<longrightarrow> calculatePopularityScore d = 1)
   \<and> (d1 \<le> d2 \<longrightarrow> calculatePopularityScore d1 \<le> calculatePopularityScore d2)
   \<and> calculatePopularityScore 999 = 1
   \<and> calculatePopularityScore 1000 = 2
   \<and> calculatePopularityScore 99999 = 4
   \<and> calculatePopularityScore 100000 = 6"
  by (simp add: calculatePopularityScore_def)

theorem popularity_step_function_witness:
  "(1000000::rat) \<le> 2500000 \<and> (2500000::rat) < 10000000
   \<and> calculatePopularityScore 2500000 = 8
   \<and> (999::rat) \<le> 1000
   \<and> calculatePopularityScore 999 \<le> calculatePopularityScore 1000"
  using popularity_step_function [of 2500000 999 1000] by simp

text \<open>
  Claim C5. For every package metadata and every non-negative download count, each of
  the maintenance, popularity, quality and security scores is an integer from 0 to 10.
\<close>

theorem sub_scores_in_range:
  assumes "0 \<le> downloads"
  shows "0 \<le> calculateMaintenanceScore clk pkg \<and> calculateMaintenanceScore clk pkg \<le> 10
    \<and> 0 \<le> calculatePopularityScore downloads \<and> calculatePopularityScore downloads \<le> 10
    \<and> 0 \<le> calculateQualityScore pkg \<and> calculateQualityScore pkg \<le> 10
    \<and> 0 \<le> calculateSecurityScore pkg \<and> calculateSecurityScore pkg \<le> 10"
  using assms maintenance_range [of clk pkg] popularity_range [of downloads]
    quality_range [of pkg] security_range [of pkg]
  by linarith

theorem sub_scores_in_range_witness:
  "(0::rat) \<le> 5000
   \<and> 0 \<le> calculateMaintenanceScore (fixed_clock 1700000000000 1690000000000) deprecated_package
   \<and> calculateMaintenanceScore (fixed_clock 1700000000000 1690000000000) deprecated_package \<le> 10
   \<and> calculatePopularityScore 5000 = 2
   \<and> calculateQualityScore deprecated_package = 0
   \<and> calculateSecurityScore deprecated_package = 2"
proof -
  have h: "(0::rat) \<le> 5000" by simp
  have q: "calculateQualityScore deprecated_package = 0"
    by (simp add: calculateQualityScore_def deprecated_package_def bare_package_def js_or_def
        startsWith_def nonempty_array_def)
  have s: "calculateSecurityScore deprecated_package = 2"
    by (simp add: calculateSecurityScore_def deprecated_package_def bare_package_def
        toLowerCase_def lower_char_def str_includes_def sublist_code)
  have p: "calculatePopularityScore 5000 = 2"
    by (simp add: calculatePopularityScore_def)
  show ?thesis
    using sub_scores_in_range [OF h, of "fixed_clock 1700000000000 1690000000000" deprecated_package]
      h q s p
    by simp
qed

text \<open>
  A deprecated package loses its recency points, and then receives the points for its
  number of releases: the release bonus is added after the score was set to 0.
\<close>

lemma maintenance_of_deprecated:
  assumes "truthy (pkg_deprecated pkg)"
  shows "calculateMaintenanceScore clk pkg =
    (let versions = filter (\<lambda>v. v \<noteq> ''created'' \<and> v \<noteq> ''modified'')
                      (object_keys (case pkg_time pkg of None \<Rightarrow> [] | Some t \<Rightarrow> t))
     in if length versions > 10 then 2 else if length versions > 5 then 1 else 0)"
  using assms by (simp add: calculateMaintenanceScore_def Let_def)

text \<open>
  Claim C1 (the code departs from it). A package that carries a deprecation marker is
  to have the maintenance score 0 whatever its publish history. The deprecated package
  with eleven published versions has the maintenance score 2, at every clock.
\<close>

theorem deprecated_maintenance_score_is_2:
  "truthy (pkg_deprecated deprecated_package)
   \<and> calculateMaintenanceScore clk deprecated_package = 2"
  by (simp add: calculateMaintenanceScore_def Let_def deprecated_package_def
      bare_package_def object_keys_def)

section \<open>License resolution and classification\<close>

text \<open>
  The substring test on the upper-cased strings is the case-insensitive substring
  match.
\<close>

lemma includes_upper_iff:
  "str_includes (toUpperCase license) (toUpperCase entry) \<longleftrightarrow> contains_ignoring_case license entry"
proof
  assume "str_includes (toUpperCase license) (toUpperCase entry)"
  then have "sublist (toUpperCase entry) (map upper_char license)"
    by (simp add: str_includes_def toUpperCase_def)
  then obtain u where "sublist u license" and "toUpperCase entry = map upper_char u"
    using sublist_map_rightE by blast
  then show "contains_ignoring_case license entry"
    unfolding contains_ignoring_case_def by (auto simp: toUpperCase_def)
next
  assume "contains_ignoring_case license entry"
  then obtain u where u: "sublist u license" "toUpperCase u = toUpperCase entry"
    unfolding contains_ignoring_case_def by blast
  from u(1) obtain ps ss where "license = ps @ u @ ss" by (auto simp: sublist_def)
  then have "toUpperCase license = toUpperCase ps @ toUpperCase u @ toUpperCase ss"
    by (simp add: toUpperCase_def)
  then show "str_includes (toUpperCase license) (toUpperCase entry)"
    unfolding str_includes_def u(2) [symmetric] by simp
qed

lemma license_entry_plain_or_typed: "plain_or_typed l \<Longrightarrow> license_entry l = entry_type l"
  by (cases l rule: license_entry.cases) (simp_all add: plain_or_typed_def)

lemma detectLicense_undecided:
  "license_undecided pkg \<Longrightarrow>
   detectLicense pkg =
     (case pkg_licenses pkg of
        Some (LArr ls) \<Rightarrow> join '', '' (map license_entry ls)
      | _ \<Rightarrow> ''Unknown'')"
  by (auto simp: license_undecided_def detectLicense_def
      split: option.splits license_val.splits list.splits)

text \<open>
  Claim C6. \<open>detectLicense\<close> accepts three shapes: a plain string, returned as it is; an
  object with a type, whose type is returned; and a list (the \<^verbatim>\<open>licenses\<close> property) of
  entries that are plain strings or objects with a type, whose types are joined with
  a comma and a space. Absent or unrecognized license information gives
  \<^verbatim>\<open>Unknown\<close>. The list with the one entry of type \<^verbatim>\<open>MIT\<close> resolves to \<^verbatim>\<open>MIT\<close>.
\<close>

theorem detectLicense_shapes:
  "(pkg_license pkg = Some (LStr s) \<longrightarrow> detectLicense pkg = s)
   \<and> (pkg_license pkg = Some (LObj (Some t)) \<and> t \<noteq> [] \<longrightarrow> detectLicense pkg = t)
   \<and> (license_undecided pkg \<and> pkg_licenses pkg = Some (LArr ls)
        \<and> (\<forall>l \<in> set ls. plain_or_typed l)
      \<longrightarrow> detectLicense pkg = join '', '' (map entry_type ls))
   \<and> (license_undecided pkg \<and> (\<forall>xs. pkg_licenses pkg \<noteq> Some (LArr xs))
      \<longrightarrow> detectLicense pkg = ''Unknown'')
   \<and> detectLicense mit_list_package = ''MIT''"
proof (intro conjI impI)
  assume "pkg_license pkg = Some (LStr s)"
  then show "detectLicense pkg = s" by (simp add: detectLicense_def)
next
  assume "pkg_license pkg = Some (LObj (Some t)) \<and> t \<noteq> []"
  then show "detectLicense pkg = t"
    by (cases t) (simp_all add: detectLicense_def)
next
  assume a: "license_undecided pkg \<and> pkg_licenses pkg = Some (LArr ls)
    \<and> (\<forall>l \<in> set ls. plain_or_typed l)"
  then have eq: "map license_entry ls = map entry_type ls"
    by (simp add: license_entry_plain_or_typed)
  from a show "detectLicense pkg = join '', '' (map entry_type ls)"
    by (simp add: detectLicense_undecided eq)
next
  assume "license_undecided pkg \<and> (\<forall>xs. pkg_licenses pkg \<noteq> Some (LArr xs))"
  then show "detectLicense pkg = ''Unknown''"
    by (auto simp: detectLicense_undecided split: option.splits license_val.splits)
next
  show "detectLicense mit_list_package = ''MIT''"
    by (simp add: detectLicense_def mit_list_package_def bare_package_def)
qed

theorem detectLicense_shapes_witness:
  "pkg_license string_license_package = Some (LStr ''WTFPL'')
   \<and> detectLicense string_license_package = ''WTFPL''
   \<and> pkg_license object_license_package = Some (LObj (Some ''Apache-2.0''))
   \<and> detectLicense object_license_package = ''Apache-2.0''
   \<and> license_undecided two_licenses_package
   \<and> pkg_licenses two_licenses_package = Some (LArr [LObj (Some ''MIT''), LStr ''GPL-3.0''])
   \<and> plain_or_typed (LObj (Some ''MIT'')) \<and> plain_or_typed (LStr ''GPL-3.0'')
   \<and> detectLicense two_licenses_package = ''MIT, GPL-3.0''
   \<and> license_undecided (bare_package ''left-pad'')
   \<and> pkg_licenses (bare_package ''left-pad'') = None
   \<and> detectLicense (bare_package ''left-pad'') = ''Unknown''"
proof -
  have a: "pkg_license string_license_package = Some (LStr ''WTFPL'')"
    by (simp add: string_license_package_def)
  have b: "pkg_license object_license_package = Some (LObj (Some ''Apache-2.0''))"
    by (simp add: object_license_package_def)
  have c: "license_undecided two_licenses_package"
    "pkg_licenses two_licenses_package = Some (LArr [LObj (Some ''MIT''), LStr ''GPL-3.0''])"
    "\<forall>l \<in> set [LObj (Some ''MIT''), LStr ''GPL-3.0'']. plain_or_typed l"
    by (simp_all add: two_licenses_package_def bare_package_def license_undecided_def
        plain_or_typed_def)
  have d: "license_undecided (bare_package ''left-pad'')"
    "pkg_licenses (bare_package ''left-pad'') = None"
    by (simp_all add: bare_package_def license_undecided_def)
  show ?thesis
    using a b c d
      detectLicense_shapes [of string_license_package "''WTFPL''"]
      detectLicense_shapes [of object_license_package _ "''Apache-2.0''"]
      detectLicense_shapes [of two_licenses_package _ _ "[LObj (Some ''MIT''), LStr ''GPL-3.0'']"]
      detectLicense_shapes [of "bare_package ''left-pad''"]
    by simp
qed

text \<open>
  Claim C7. \<open>isLicenseCompatible\<close> classifies a license string by case-insensitive
  substring match against the compatible list (MIT, Apache-2.0, BSD-2-Clause,
  BSD-3-Clause, ISC, CC0-1.0, 0BSD) and the problematic list (GPL-3.0, AGPL-3.0, AGPL).
  The compatible list is checked first and wins when both lists match; a string that
  matches neither list is \<^verbatim>\<open>unknown\<close>. \<^verbatim>\<open>MIT\<close> is compatible,
  \<^verbatim>\<open>GPL-3.0-or-later\<close> problematic, \<^verbatim>\<open>WTFPL\<close> unknown.
\<close>

theorem isLicenseCompatible_classification:
  "isLicenseCompatible license =
     (if \<exists>entry \<in> set [''MIT'', ''Apache-2.0'', ''BSD-2-Clause'', ''BSD-3-Clause'', ''ISC'',
                        ''CC0-1.0'', ''0BSD'']. contains_ignoring_case license entry
      then ''compatible''
      else if \<exists>entry \<in> set [''GPL-3.0'', ''AGPL-3.0'', ''AGPL''].
                contains_ignoring_case license entry
      then ''problematic''
      else ''unknown'')
   \<and> isLicenseCompatible ''MIT'' = ''compatible''
   \<and> isLicenseCompatible ''GPL-3.0-or-later'' = ''problematic''
   \<and> isLicenseCompatible ''WTFPL'' = ''unknown''"
proof (intro conjI)
  show "isLicenseCompatible license =
     (if \<exists>entry \<in> set [''MIT'', ''Apache-2.0'', ''BSD-2-Clause'', ''BSD-3-Clause'', ''ISC'',
                        ''CC0-1.0'', ''0BSD'']. contains_ignoring_case license entry
      then ''compatible''
      else if \<exists>entry \<in> set [''GPL-3.0'', ''AGPL-3.0'', ''AGPL''].
                contains_ignoring_case license entry
      then ''problematic''
      else ''unknown'')"
    unfolding isLicenseCompatible_def Let_def list_ex_iff includes_upper_iff
      compatible_def problematic_def ..
next
  show "isLicenseCompatible ''MIT'' = ''compatible''"
    by (simp add: isLicenseCompatible_def compatible_def problematic_def toUpperCase_def
        upper_char_def str_includes_def sublist_code)
next
  show "isLicenseCompatible ''GPL-3.0-or-later'' = ''problematic''"
    by (simp add: isLicenseCompatible_def compatible_def problematic_def toUpperCase_def
        upper_char_def str_includes_def sublist_code)
next
  show "isLicenseCompatible ''WTFPL'' = ''unknown''"
    by (simp add: isLicenseCompatible_def compatible_def problematic_def toUpperCase_def
        upper_char_def str_includes_def sublist_code)
qed

theorem isLicenseCompatible_classification_witness:
  "contains_ignoring_case ''mit OR gpl-3.0'' ''MIT''
   \<and> contains_ignoring_case ''mit OR gpl-3.0'' ''GPL-3.0''
   \<and> isLicenseCompatible ''mit OR gpl-3.0'' = ''compatible''"
proof -
  have "sublist ''mit'' (''mit'' @ '' OR gpl-3.0'')" by (rule sublist_append_rightI)
  then have m: "contains_ignoring_case ''mit OR gpl-3.0'' ''MIT''"
    unfolding contains_ignoring_case_def
    by (intro exI [of _ "''mit''"]) (simp add: toUpperCase_def upper_char_def)
  have "sublist ''gpl-3.0'' (''mit OR '' @ ''gpl-3.0'')" by (rule sublist_append_leftI)
  then have g: "contains_ignoring_case ''mit OR gpl-3.0'' ''GPL-3.0''"
    unfolding contains_ignoring_case_def
    by (intro exI [of _ "''gpl-3.0''"]) (simp add: toUpperCase_def upper_char_def)
  show ?thesis
    using m g isLicenseCompatible_classification [of "''mit OR gpl-3.0''"] by simp
qed

section \<open>Download statistics\<close>




section \<open>Evaluating a batch\<close>

lemma evaluatePackage_cases:
  "(case getPackageInfo reg n of
      Inl message \<Rightarrow> evaluatePackage clk reg n = Failed n message zero_scores
    | Inr pkg \<Rightarrow>
        \<exists>ev. evaluatePackage clk reg n = Evaluated ev \<and> ev_name ev = n
          \<and> ev_downloads ev = getDownloadStats reg n
          \<and> ev_scores ev = score_record clk pkg (getDownloadStats reg n))"
  by (simp add: evaluatePackage_def Let_def split: sum.split)




text \<open>
  Claim C9. The scores depend on the clock only through the months since the last
  publish: two evaluations of the same metadata and the same download count, at clocks
  that give the same months since publish, produce the same score record.
\<close>

theorem scoring_deterministic:
  assumes "monthsSincePublish clk1 pkg = monthsSincePublish clk2 pkg"
  shows "score_record clk1 pkg downloads = score_record clk2 pkg downloads"
proof -
  have "calculateMaintenanceScore clk1 pkg = calculateMaintenanceScore clk2 pkg"
    unfolding calculateMaintenanceScore_def assms ..
  then show ?thesis
    by (simp add: score_record_def)
qed

theorem scoring_deterministic_witness:
  "monthsSincePublish (fixed_clock 1700000000000 1690000000000) deprecated_package
     = monthsSincePublish (fixed_clock 1710000000000 1700000000000) deprecated_package
   \<and> score_record (fixed_clock 1700000000000 1690000000000) deprecated_package 5000
     = score_record (fixed_clock 1710000000000 1700000000000) deprecated_package 5000"
proof -
  have h: "monthsSincePublish (fixed_clock 1700000000000 1690000000000) deprecated_package
     = monthsSincePublish (fixed_clock 1710000000000 1700000000000) deprecated_package"
    by (simp add: monthsSincePublish_def lastPublish_def lastPublishField_def time_prop_def
        fixed_clock_def deprecated_package_def bare_package_def)
  show ?thesis
    using h scoring_deterministic [OF h, of 5000] by simp
qed

section \<open>The composite score\<close>

lemma exact_composite_half_grid:
  "10 * exact_composite q m s p = of_int (3 * q + 5 * m + 4 * s + 2 * p + 60) / 2"
  by (simp add: exact_composite_def)

lemma exact_composite_range:
  assumes "0 \<le> q" "q \<le> 10" "0 \<le> m" "m \<le> 10" "0 \<le> s" "s \<le> 10" "0 \<le> p" "p \<le> 10"
  shows "3 \<le> exact_composite q m s p \<and> exact_composite q m s p \<le> 10"
proof -
  have "(0::rat) \<le> of_int q" "(of_int q :: rat) \<le> 10" "(0::rat) \<le> of_int m"
    "(of_int m :: rat) \<le> 10" "(0::rat) \<le> of_int s" "(of_int s :: rat) \<le> 10"
    "(0::rat) \<le> of_int p" "(of_int p :: rat) \<le> 10"
    using assms by simp_all
  then show ?thesis unfolding exact_composite_def by simp
qed

lemma composite_tenths_nearest:
  assumes "0 \<le> q" "q \<le> 10" "0 \<le> m" "m \<le> 10" "0 \<le> s" "s \<le> 10" "0 \<le> p" "p \<le> 10"
  shows "\<bar>of_int (composite_tenths q m s p) - 10 * exact_composite q m s p\<bar> \<le> 1 / 2"
proof -
  note u = double_error_bounds
  define c where "c = compositeScore q m s p"
  define x where "x = exact_composite q m s p"
  have e: "\<bar>c - x\<bar> \<le> 49 * double_error"
    unfolding c_def x_def using assms by (rule compositeScore_error)
  have x: "3 \<le> x \<and> x \<le> 10"
    unfolding x_def using assms by (rule exact_composite_range)
  have "\<bar>c * 10\<bar> < 128" using e x u by linarith
  then have "\<bar>double_of (c * 10) - c * 10\<bar> \<le> double_error" by (rule double_of_error)
  with e u have "\<bar>js_mul c 10 - 10 * x\<bar> < 1 / 4"
    unfolding js_mul_def by linarith
  then have "\<bar>js_mul c 10 - of_int (3 * q + 5 * m + 4 * s + 2 * p + 60) / 2\<bar> < 1 / 4"
    unfolding x_def exact_composite_half_grid .
  then have "\<bar>of_int (Math_round (js_mul c 10)) - of_int (3 * q + 5 * m + 4 * s + 2 * p + 60) / 2\<bar>
      \<le> (1 / 2 :: rat)"
    by (rule Math_round_half_grid)
  then show ?thesis
    unfolding composite_tenths_def c_def exact_composite_half_grid .
qed

lemma composite_tenths_range:
  assumes "0 \<le> q" "q \<le> 10" "0 \<le> m" "m \<le> 10" "0 \<le> s" "s \<le> 10" "1 \<le> p" "p \<le> 10"
  shows "31 \<le> composite_tenths q m s p \<and> composite_tenths q m s p \<le> 100"
proof -
  define k where "k = composite_tenths q m s p"
  have n: "\<bar>of_int k - 10 * exact_composite q m s p\<bar> \<le> 1 / 2"
    unfolding k_def using assms by (intro composite_tenths_nearest) auto
  have "(0::rat) \<le> of_int q" "(of_int q :: rat) \<le> 10" "(0::rat) \<le> of_int m"
    "(of_int m :: rat) \<le> 10" "(0::rat) \<le> of_int s" "(of_int s :: rat) \<le> 10"
    "(1::rat) \<le> of_int p" "(of_int p :: rat) \<le> 10"
    using assms by simp_all
  then have "31 / 10 \<le> exact_composite q m s p \<and> exact_composite q m s p \<le> 10"
    unfolding exact_composite_def by simp
  with n have "(30 :: rat) < of_int k" "(of_int k :: rat) < 101"
    by linarith+
  then have "(of_int 30 :: rat) < of_int k" "(of_int k :: rat) < of_int 101"
    by simp_all
  then have "30 < k" "k < 101" by (simp_all only: of_int_less_iff)
  then show ?thesis unfolding k_def by simp
qed

lemma double_of_31_tenths: "31 / 10 \<le> double_of (31 / 10)"
  by code_simp

lemma double_of_10: "double_of 10 = 10"
  by code_simp

lemma double_of_tenths_bounds:
  assumes "31 \<le> k" "k \<le> 100"
  shows "double_of (31 / 10) \<le> double_of (of_int k / 10)
    \<and> 31 / 10 \<le> double_of (of_int k / 10) \<and> double_of (of_int k / 10) \<le> 10"
proof -
  note u = double_error_bounds
  consider "k = 31" | "k = 100" | "32 \<le> k \<and> k \<le> 99" using assms by linarith
  then show ?thesis
  proof cases
    case 1
    have "double_of (31 / 10) \<le> 31 / 10 + double_error"
      using double_of_error [of "31 / 10"] by simp
    with 1 u double_of_31_tenths show ?thesis by simp
  next
    case 2
    have "double_of (31 / 10) \<le> 31 / 10 + double_error"
      using double_of_error [of "31 / 10"] by simp
    with 2 u double_of_10 show ?thesis by simp
  next
    case 3
    then have r: "(32 :: rat) \<le> of_int k" "(of_int k :: rat) \<le> 99" by simp_all
    then have "\<bar>(of_int k :: rat) / 10\<bar> < 128" by simp
    then have "\<bar>double_of (of_int k / 10) - of_int k / 10\<bar> \<le> double_error"
      by (rule double_of_error)
    moreover have "\<bar>double_of (31 / 10) - 31 / 10\<bar> \<le> double_error"
      by (rule double_of_error) simp
    ultimately show ?thesis using r u by simp linarith
  qed
qed

lemma score_record_fields:
  "maintenance (score_record clk pkg d) = calculateMaintenanceScore clk pkg"
  "popularity (score_record clk pkg d) = calculatePopularityScore d"
  "quality (score_record clk pkg d) = calculateQualityScore pkg"
  "security (score_record clk pkg d) = calculateSecurityScore pkg"
  "composite (score_record clk pkg d) =
     composite_of (calculateQualityScore pkg) (calculateMaintenanceScore clk pkg)
       (calculateSecurityScore pkg) (calculatePopularityScore d)"
  by (simp_all add: score_record_def Let_def)

text \<open>
  The rounding is that of double arithmetic: the sub-scores 2, 1, 10, 4 have the exact
  weighted sum 5.95, the doubles sum to a number just below it, and the composite
  score is 5.9.
\<close>

lemma composite_tie_rounds_down:
  "composite_tenths 2 1 10 4 = 59 \<and> exact_composite 2 1 10 4 = 595 / 100"
  by code_simp

lemma composite_of_all_ten: "composite_of 10 10 10 10 = 10"
  by code_simp

lemma composite_of_all_zero: "composite_of 0 0 0 0 = 3"
  by code_simp

text \<open>
  Claim C3. The composite score of a successful evaluation is
  \<^verbatim>\<open>quality*0.15 + maintenance*0.25 + security*0.20 + popularity*0.10 + 3.0\<close> rounded
  to one decimal place: it is the double nearest to \<open>k / 10\<close> for a whole number \<open>k\<close> of
  tenths, and \<open>k / 10\<close> is within \<open>1 / 20\<close> of the exact weighted sum. This holds for
  all sub-scores from 0 to 10, and so for the score record of every package. The
  sub-scores 10, 10, 10, 10 give 10.0, and 0, 0, 0, 0 give 3.0.
\<close>

theorem composite_formula:
  "(0 \<le> q \<and> q \<le> 10 \<and> 0 \<le> m \<and> m \<le> 10 \<and> 0 \<le> s \<and> s \<le> 10 \<and> 0 \<le> p \<and> p \<le> 10 \<longrightarrow>
      composite_of q m s p = double_of (of_int (composite_tenths q m s p) / 10)
      \<and> \<bar>of_int (composite_tenths q m s p) / 10 - exact_composite q m s p\<bar> \<le> 1 / 20)
   \<and> (let sc = score_record clk pkg downloads
      in composite sc = composite_of (quality sc) (maintenance sc) (security sc) (popularity sc)
         \<and> \<bar>of_int (composite_tenths (quality sc) (maintenance sc) (security sc) (popularity sc)) / 10
              - exact_composite (quality sc) (maintenance sc) (security sc) (popularity sc)\<bar>
            \<le> 1 / 20)
   \<and> composite_of 10 10 10 10 = 10
   \<and> composite_of 0 0 0 0 = 3"
proof -
  have general: "\<bar>of_int (composite_tenths q m s p) / 10 - exact_composite q m s p\<bar> \<le> 1 / 20"
    if "0 \<le> q" "q \<le> 10" "0 \<le> m" "m \<le> 10" "0 \<le> s" "s \<le> 10" "0 \<le> p" "p \<le> 10"
    for q m s p
  proof -
    have "\<bar>of_int (composite_tenths q m s p) - 10 * exact_composite q m s p\<bar> \<le> 1 / 2"
      using that by (rule composite_tenths_nearest)
    then show ?thesis by linarith
  qed
  have r: "0 \<le> calculateQualityScore pkg" "calculateQualityScore pkg \<le> 10"
    "0 \<le> calculateMaintenanceScore clk pkg" "calculateMaintenanceScore clk pkg \<le> 10"
    "0 \<le> calculateSecurityScore pkg" "calculateSecurityScore pkg \<le> 10"
    "0 \<le> calculatePopularityScore downloads" "calculatePopularityScore downloads \<le> 10"
    using maintenance_range [of clk pkg] popularity_range [of downloads]
      quality_range [of pkg] security_range [of pkg]
    by linarith+
  have "composite_of q m s p = double_of (of_int (composite_tenths q m s p) / 10)"
    by (simp add: composite_of_def js_div_def)
  moreover note general [of q m s p] general [OF r]
  ultimately show ?thesis
    using composite_of_all_ten composite_of_all_zero
    by (simp add: score_record_fields Let_def)
qed

theorem composite_formula_witness:
  "(0::int) \<le> 2 \<and> (2::int) \<le> 10 \<and> (0::int) \<le> 1 \<and> (1::int) \<le> 10
   \<and> (0::int) \<le> 10 \<and> (10::int) \<le> 10 \<and> (0::int) \<le> 4 \<and> (4::int) \<le> 10
   \<and> composite_of 2 1 10 4 = double_of (of_int (composite_tenths 2 1 10 4) / 10)
   \<and> \<bar>of_int (composite_tenths 2 1 10 4) / 10 - exact_composite 2 1 10 4\<bar> \<le> 1 / 20"
  using composite_formula [of 2 1 10 4] by simp

text \<open>
  Claim C10. The popularity score is at least 1, every sub-score is at most 10 and
  the quality score at most 7, so the composite score of every full (non-error) record
  is at least 3.1 and at most 10.0; the composite score 0 occurs in error records
  only, where it always occurs.
\<close>

theorem composite_bounds:
  "(evaluatePackage clk reg n = Evaluated ev \<longrightarrow>
      1 \<le> popularity (ev_scores ev)
      \<and> quality (ev_scores ev) \<le> 7
      \<and> maintenance (ev_scores ev) \<le> 10
      \<and> security (ev_scores ev) \<le> 10
      \<and> 31 / 10 \<le> composite (ev_scores ev)
      \<and> double_of (31 / 10) \<le> composite (ev_scores ev)
      \<and> composite (ev_scores ev) \<le> 10
      \<and> composite (ev_scores ev) \<noteq> 0)
   \<and> (evaluatePackage clk reg n = Failed n' message sc \<longrightarrow> composite sc = 0)"
proof (intro conjI impI)
  assume e: "evaluatePackage clk reg n = Evaluated ev"
  then obtain pkg where s: "ev_scores ev = score_record clk pkg (getDownloadStats reg n)"
    using evaluatePackage_cases [where reg = reg and n = n and clk = clk]
    by (auto split: sum.splits)
  define d where "d = getDownloadStats reg n"
  note q = quality_range [of pkg]
  note m = maintenance_range [of clk pkg]
  note c = security_range [of pkg]
  note p = popularity_range [of d]
  have k: "31 \<le> composite_tenths (calculateQualityScore pkg) (calculateMaintenanceScore clk pkg)
                  (calculateSecurityScore pkg) (calculatePopularityScore d)
    \<and> composite_tenths (calculateQualityScore pkg) (calculateMaintenanceScore clk pkg)
                  (calculateSecurityScore pkg) (calculatePopularityScore d) \<le> 100"
    using q m c p by (intro composite_tenths_range) linarith+
  have b: "double_of (31 / 10) \<le> composite (ev_scores ev)
    \<and> 31 / 10 \<le> composite (ev_scores ev) \<and> composite (ev_scores ev) \<le> 10"
    unfolding s d_def [symmetric] score_record_fields composite_of_def js_div_def
    using k by (intro double_of_tenths_bounds) simp_all
  show "1 \<le> popularity (ev_scores ev)" "quality (ev_scores ev) \<le> 7"
    "maintenance (ev_scores ev) \<le> 10" "security (ev_scores ev) \<le> 10"
    using q m c p by (simp_all add: s d_def [symmetric] score_record_fields)
  show "31 / 10 \<le> composite (ev_scores ev)" "double_of (31 / 10) \<le> composite (ev_scores ev)"
    "composite (ev_scores ev) \<le> 10"
    using b by simp_all
  then show "composite (ev_scores ev) \<noteq> 0" by linarith
next
  assume "evaluatePackage clk reg n = Failed n' message sc"
  then have "sc = zero_scores"
    using evaluatePackage_cases [where reg = reg and n = n and clk = clk]
    by (auto split: sum.splits)
  then show "composite sc = 0" by (simp add: zero_scores_def)
qed

theorem composite_bounds_witness:
  "(\<exists>ev. evaluatePackage (fixed_clock 1700000000000 1690000000000) example_registry ''left-pad''
          = Evaluated ev
        \<and> 31 / 10 \<le> composite (ev_scores ev) \<and> composite (ev_scores ev) \<le> 10)
   \<and> (\<exists>message sc.
        evaluatePackage (fixed_clock 1700000000000 1690000000000) example_registry
          ''no-such-package'' = Failed ''no-such-package'' message sc
        \<and> composite sc = 0)"
proof -
  let ?clk = "fixed_clock 1700000000000 1690000000000"
  have a: "getPackageInfo example_registry ''left-pad''
      = Inr ((bare_package ''left-pad'') \<lparr> pkg_version := JStr ''1.3.0'' \<rparr>)"
    by (simp add: getPackageInfo_def example_registry_def)
  have b: "getPackageInfo example_registry ''no-such-package''
      = Inl ''Failed to fetch info for no-such-package: Command failed: npm view no-such-package --json''"
    by (simp add: getPackageInfo_def example_registry_def)
  obtain ev where e: "evaluatePackage ?clk example_registry ''left-pad'' = Evaluated ev"
    using evaluatePackage_cases [where reg = example_registry and n = "''left-pad''" and clk = ?clk] a
    by auto
  obtain message sc where f: "evaluatePackage ?clk example_registry ''no-such-package''
      = Failed ''no-such-package'' message sc"
    using evaluatePackage_cases [where reg = example_registry and n = "''no-such-package''"
        and clk = ?clk] b
    by auto
  have "31 / 10 \<le> composite (ev_scores ev) \<and> composite (ev_scores ev) \<le> 10"
    using e composite_bounds [of ?clk example_registry "''left-pad''" ev] by simp
  moreover have "composite sc = 0"
    using f composite_bounds [of ?clk example_registry "''no-such-package''" _
        "''no-such-package''" message sc]
    by simp
  ultimately show ?thesis using e f by blast
qed

end
